theory Spec2Isabelle
  imports Complex_Main
begin

section \<open>Text: Python strings as lists of code points\<close>

text \<open>
  A Python \<open>str\<close> is a sequence of Unicode code points and \<open>len\<close> counts code points,
  so a string of the program is a list of natural numbers, one per code point. ASCII
  literals are written with \<open>ords\<close>. URLs, header fields, paths and the names of
  environment variables are ASCII constants of the program and stay HOL strings.
\<close>

type_synonym pystr = "nat list"

definition ords :: "string \<Rightarrow> pystr" where
  "ords s = map of_char s"

subsection \<open>The character classes of the regular expressions\<close>

text \<open>
  \<open>\s\<close> on a \<open>str\<close> pattern is \<open>str.isspace\<close> on one character; \<open>str.strip()\<close> with
  no argument removes the same characters. The set is finite: the ASCII controls 9 to 13
  and 28 to 31, the space, and the Unicode separators.
\<close>

definition is_space :: "nat \<Rightarrow> bool" where
  "is_space c \<longleftrightarrow>
     (9 \<le> c \<and> c \<le> 13) \<or> (28 \<le> c \<and> c \<le> 32) \<or> c = 133 \<or> c = 160 \<or> c = 5760 \<or>
     (8192 \<le> c \<and> c \<le> 8202) \<or> c = 8232 \<or> c = 8233 \<or> c = 8239 \<or> c = 8287 \<or>
     c = 12288"

text \<open>
  \<open>\w\<close> on a \<open>str\<close> pattern is "alphanumeric in the Unicode database, or the
  underscore". On ASCII that is the letters, the digits and \<open>_\<close> (code 95). Beyond ASCII
  it is the database's table, which is not part of the repository: it is the parameter
  \<open>alnum\<close> of everything below.
\<close>

definition ascii_alnum :: "nat \<Rightarrow> bool" where
  "ascii_alnum c \<longleftrightarrow> (48 \<le> c \<and> c \<le> 57) \<or> (65 \<le> c \<and> c \<le> 90) \<or> (97 \<le> c \<and> c \<le> 122)"

definition is_word :: "(nat \<Rightarrow> bool) \<Rightarrow> nat \<Rightarrow> bool" where
  "is_word alnum c \<longleftrightarrow> (if c < 128 then ascii_alnum c \<or> c = 95 else alnum c)"

text \<open>The punctuation listed in the character class: \<open>. , ! ? ; : ( ) -\<close>.\<close>

definition basic_punct :: "nat \<Rightarrow> bool" where
  "basic_punct c \<longleftrightarrow> c \<in> set (ords ''.,!?;:()-'')"

text \<open>A character survives \<open>[^\w\s.,!?;:()\-]\<close> when it is in none of the negated classes.\<close>

definition kept :: "(nat \<Rightarrow> bool) \<Rightarrow> nat \<Rightarrow> bool" where
  "kept alnum c \<longleftrightarrow> is_word alnum c \<or> is_space c \<or> basic_punct c"

text \<open>
  The table of the Unicode database on Latin-1 (code points below 256) and nothing
  beyond: a concrete table to evaluate with.
\<close>

definition latin1_alnum :: "nat \<Rightarrow> bool" where
  "latin1_alnum c \<longleftrightarrow>
     c = 170 \<or> c = 178 \<or> c = 179 \<or> c = 181 \<or> c = 185 \<or> c = 186 \<or>
     (188 \<le> c \<and> c \<le> 190) \<or> (192 \<le> c \<and> c \<le> 214) \<or> (216 \<le> c \<and> c \<le> 246) \<or>
     (248 \<le> c \<and> c \<le> 255)"

subsection \<open>clean_text\<close>

text \<open>
  \<open>re.sub(r'\s+', ' ', text)\<close>: every maximal run of whitespace becomes one space
  (code 32).
\<close>

function sub_ws_runs :: "pystr \<Rightarrow> pystr" where
  "sub_ws_runs [] = []"
| "sub_ws_runs (c # cs) =
     (if is_space c then 32 # sub_ws_runs (dropWhile is_space cs)
      else c # sub_ws_runs cs)"
  by pat_completeness auto
termination
  by (relation "measure length") (auto simp: length_dropWhile_le less_Suc_eq_le)

text \<open>\<open>re.sub(r'[^\w\s.,!?;:()\-]', '', text)\<close>: every other character is deleted.\<close>

definition sub_special :: "(nat \<Rightarrow> bool) \<Rightarrow> pystr \<Rightarrow> pystr" where
  "sub_special alnum t = filter (kept alnum) t"

text \<open>\<open>str.strip()\<close>: whitespace is removed at both ends.\<close>

definition lstrip :: "pystr \<Rightarrow> pystr" where
  "lstrip t = dropWhile is_space t"

definition rstrip :: "pystr \<Rightarrow> pystr" where
  "rstrip t = rev (dropWhile is_space (rev t))"

definition strip :: "pystr \<Rightarrow> pystr" where
  "strip t = rstrip (lstrip t)"

definition clean_text :: "(nat \<Rightarrow> bool) \<Rightarrow> pystr \<Rightarrow> pystr" where
  "clean_text alnum t = strip (sub_special alnum (sub_ws_runs t))"


section \<open>The parsed document\<close>

text \<open>
  \<open>BeautifulSoup(response.content, 'html.parser')\<close> gives a tree: tags with a name and
  children, text strings, and strings that are not text (comments, declarations), which
  \<open>get_text\<close> leaves out. A soup is the list of the children of the document root.
\<close>

datatype node = NavigableString pystr | Comment pystr | Tag pystr "node list"

text \<open>
  \<open>for script in soup(["script", "style"]): script.decompose()\<close>: every tag of one of
  the names is removed, with its subtree, wherever it is.
\<close>

fun decompose_all :: "pystr list \<Rightarrow> node list \<Rightarrow> node list" where
  "decompose_all names [] = []"
| "decompose_all names (Tag n ch # rest) =
     (if n \<in> set names then decompose_all names rest
      else Tag n (decompose_all names ch) # decompose_all names rest)"
| "decompose_all names (x # rest) = x # decompose_all names rest"

text \<open>\<open>soup.find(name)\<close>: the first tag of that name in document order, or \<open>None\<close>.\<close>

fun find_tag :: "pystr \<Rightarrow> node list \<Rightarrow> node option" where
  "find_tag name [] = None"
| "find_tag name (Tag n ch # rest) =
     (if n = name then Some (Tag n ch)
      else case find_tag name ch of Some t \<Rightarrow> Some t | None \<Rightarrow> find_tag name rest)"
| "find_tag name (x # rest) = find_tag name rest"

text \<open>
  \<open>get_text()\<close>: the text strings below, in document order, joined with nothing between
  them. \<open>tag.get_text()\<close> is \<open>get_text [tag]\<close>.
\<close>

fun get_text :: "node list \<Rightarrow> pystr" where
  "get_text [] = []"
| "get_text (NavigableString s # rest) = s @ get_text rest"
| "get_text (Comment s # rest) = get_text rest"
| "get_text (Tag n ch # rest) = get_text ch @ get_text rest"

text \<open>All nodes of a soup in document order, to say which tag is the first of a name.\<close>

fun descendants :: "node list \<Rightarrow> node list" where
  "descendants [] = []"
| "descendants (Tag n ch # rest) = Tag n ch # descendants ch @ descendants rest"
| "descendants (x # rest) = x # descendants rest"

fun is_tag :: "pystr \<Rightarrow> node \<Rightarrow> bool" where
  "is_tag name (Tag n ch) = (n = name)"
| "is_tag name x = False"

section \<open>The outside world\<close>

text \<open>
  The exceptions of the model are those that derive from Python's \<open>Exception\<close>, which
  is what \<open>except Exception\<close> catches.
\<close>

datatype exn = ConnectionError | Timeout | HTTPError nat | ParserError | TypeError | ProviderError

type_synonym bytes = "nat list"

record response =
  status_code :: nat
  body :: bytes

text \<open>\<open>Response.raise_for_status()\<close> raises \<open>HTTPError\<close> on a 4xx or 5xx status only.\<close>

definition raise_for_status :: "response \<Rightarrow> exn + unit" where
  "raise_for_status r =
     (if 400 \<le> status_code r \<and> status_code r < 600 then Inl (HTTPError (status_code r))
      else Inr ())"

record page_record =
  url :: string
  title :: pystr
  content :: pystr

text \<open>
  \<open>Document(page_content=..., metadata={"source": ..., "title": ...})\<close>; the metadata
  key \<open>title\<close> is the field \<open>meta_title\<close>.
\<close>

record document =
  page_content :: pystr
  source :: string
  meta_title :: pystr

record vectorstore =
  collection_name :: string
  persist_directory :: string
  documents :: "document list"

datatype qa_chain = Qa_chain vectorstore

text \<open>The paths that exist on disk.\<close>

type_synonym disk = "string list"

text \<open>
  What the program does not contain and calls: the Unicode table behind \<open>\w\<close>,
  \<open>requests.get(url, headers, timeout)\<close>, the HTML parser, \<open>Chroma.from_documents\<close>
  (which calls the embedding provider and writes the index to disk, or raises), the
  construction of the chain, and whether the user pressed the refresh button.
\<close>

record env =
  unicode_alnum :: "nat \<Rightarrow> bool"
  requests_get :: "string \<Rightarrow> (string \<times> string) list \<Rightarrow> nat \<Rightarrow> exn + response"
  html_parser :: "bytes \<Rightarrow> exn + node list"
  chroma_from_documents ::
    "document list \<Rightarrow> string \<Rightarrow> string \<Rightarrow> disk \<Rightarrow> (exn + vectorstore) \<times> disk"
  retrieval_qa :: "vectorstore \<Rightarrow> exn + qa_chain"
  refresh_pressed :: bool

text \<open>
  Everything the program shows or sends, in order. A Streamlit message is named by the
  call and what is filled into it. The argument of \<open>progress\<close> is the Python float
  \<open>(i + 1) / len(urls)\<close>; the event holds the exact quotient.
\<close>

datatype event =
    Http_get string "(string \<times> string) list" nat
  | St_warning_failed string exn
  | St_info_loading
  | St_progress rat
  | St_text_scraping string
  | Sleep rat
  | St_success_loaded nat
  | St_info_creating
  | St_error_no_documents
  | St_success_created
  | St_header
  | St_sidebar_database bool
  | St_sidebar_openai bool
  | St_error_knowledge_base
  | St_error_qa_system
  | St_error_initialization exn

section \<open>Scraping\<close>

definition headers :: "(string \<times> string) list" where
  "headers = [(''User-Agent'', ''Mozilla/5.0 (Windows NT 10.0; Win64; x64) AppleWebKit/537.36'')]"

text \<open>
  A call \<open>requests.get(url, headers=..., timeout=...)\<close>: the answer of the world to
  exactly these arguments, and the request that the call sends.
\<close>

definition http_get ::
  "env \<Rightarrow> string \<Rightarrow> (string \<times> string) list \<Rightarrow> nat \<Rightarrow> (exn + response) \<times> event list" where
  "http_get env u h t = (requests_get env u h t, [Http_get u h t])"

text \<open>
  The one call of the program, \<open>requests.get(url, headers=headers, timeout=10)\<close>, the
  first statement of the \<open>try\<close> block after the headers.
\<close>

definition fetch :: "env \<Rightarrow> string \<Rightarrow> (exn + response) \<times> event list" where
  "fetch env u = http_get env u headers 10"

text \<open>
  The \<open>try\<close> block of \<open>scrape_url\<close>: a page record, or the exception raised, by the
  call or after it.
\<close>

definition scrape_try :: "env \<Rightarrow> string \<Rightarrow> exn + page_record" where
  "scrape_try env u =
     (case fst (fetch env u) of
        Inl e \<Rightarrow> Inl e
      | Inr resp \<Rightarrow>
          (case raise_for_status resp of
             Inl e \<Rightarrow> Inl e
           | Inr _ \<Rightarrow>
               (case html_parser env (body resp) of
                  Inl e \<Rightarrow> Inl e
                | Inr parsed \<Rightarrow>
                    (let soup = decompose_all [ords ''script'', ords ''style''] parsed;
                         title_text = (case find_tag (ords ''title'') soup of
                                         Some t \<Rightarrow> get_text [t]
                                       | None \<Rightarrow> ords ''No Title'');
                         cleaned = clean_text (unicode_alnum env) (get_text soup)
                     in Inr \<lparr>url = u, title = title_text, content = take 5000 cleaned\<rparr>))))"

text \<open>
  \<open>scrape_url\<close>: the \<open>except Exception\<close> clause shows a warning and returns \<open>None\<close>.
  What was sent is what the call of the \<open>try\<close> block sent.
\<close>

definition scrape_url :: "env \<Rightarrow> string \<Rightarrow> page_record option \<times> event list" where
  "scrape_url env u =
     (case scrape_try env u of
        Inl e \<Rightarrow> (None, snd (fetch env u) @ [St_warning_failed u e])
      | Inr r \<Rightarrow> (Some r, snd (fetch env u)))"

definition get_argyle_urls :: "string list" where
  "get_argyle_urls =
     [''https://www.argyleisd.com/'',
      ''https://www.argyleisd.com/about'',
      ''https://www.argyleisd.com/board-of-trustees'',
      ''https://www.argyleisd.com/schools'',
      ''https://www.argyleisd.com/departments'',
      ''https://www.argyleisd.com/calendars'',
      ''https://www.argyleisd.com/employment'',
      ''https://www.argyleisd.com/departments/transportation'',
      ''https://www.argyleisd.com/departments/human-resources'',
      ''https://www.argyleisd.com/all-news'',
      ''https://www.argyleisd.com/about/faqs'',
      ''https://www.argyleisd.com/future/bonds'',
      ''https://www.argyleisd.com/staff'',
      ''https://www.argyleisd.com/directory'']"

section \<open>The corpus\<close>

text \<open>
  The loop of \<open>load_argyle_data\<close>, \<open>for i, url in enumerate(urls)\<close>, with \<open>len_urls\<close>
  for \<open>len(urls)\<close>: it returns the documents and what was shown and sent on the way.
\<close>

fun load_loop ::
  "env \<Rightarrow> nat \<Rightarrow> (nat \<times> string) list \<Rightarrow> document list \<Rightarrow> document list \<times> event list" where
  "load_loop env len_urls [] docs = (docs, [])"
| "load_loop env len_urls ((i, u) # rest) docs =
     (let (data, seen) = scrape_url env u;
          docs' = (case data of
                     Some d \<Rightarrow>
                       if content d \<noteq> []
                       then docs @ [\<lparr>page_content = content d, source = url d,
                                     meta_title = title d\<rparr>]
                       else docs
                   | None \<Rightarrow> docs);
          (result, later) = load_loop env len_urls rest docs'
      in (result,
          [St_text_scraping u] @ seen @
          [St_progress (of_nat (i + 1) / of_nat len_urls), Sleep (1 / 2)] @ later))"

text \<open>The body of \<open>load_argyle_data\<close> on a list of URLs.\<close>

definition load_argyle_data_from :: "env \<Rightarrow> string list \<Rightarrow> document list \<times> event list" where
  "load_argyle_data_from env urls =
     (let (docs, seen) = load_loop env (length urls) (enumerate 0 urls) []
      in (docs, [St_info_loading, St_progress 0] @ seen @ [St_success_loaded (length docs)]))"

text \<open>
  \<open>load_argyle_data\<close> when its cache is empty (\<open>st.cache_data\<close> returns the stored
  list afterwards).
\<close>

definition load_argyle_data :: "env \<Rightarrow> document list \<times> event list" where
  "load_argyle_data env = load_argyle_data_from env get_argyle_urls"

section \<open>The index and the chain\<close>

text \<open>
  \<open>get_vectorstore\<close> when its cache is empty: the store or \<open>None\<close>, or the exception
  of the provider, with what was shown and the disk after it.
\<close>

definition get_vectorstore :: "env \<Rightarrow> disk \<Rightarrow> (exn + vectorstore option) \<times> event list \<times> disk" where
  "get_vectorstore env d =
     (let (docs, seen) = load_argyle_data env
      in if docs = [] then (Inr None, [St_info_creating] @ seen @ [St_error_no_documents], d)
         else (case chroma_from_documents env docs ''argyleisd_real'' ''./chroma_db_real'' d of
                 (Inl e, d') \<Rightarrow> (Inl e, [St_info_creating] @ seen, d')
               | (Inr vs, d') \<Rightarrow>
                   (Inr (Some vs), [St_info_creating] @ seen @ [St_success_created], d')))"

definition get_qa_chain :: "env \<Rightarrow> vectorstore option \<Rightarrow> exn + qa_chain option" where
  "get_qa_chain env v =
     (case v of
        None \<Rightarrow> Inr None
      | Some vs \<Rightarrow> (case retrieval_qa env vs of Inl e \<Rightarrow> Inl e | Inr q \<Rightarrow> Inr (Some q)))"

section \<open>Start-up\<close>

text \<open>
  How a run of the script ends: with an exception nobody caught, with \<open>main\<close>
  returning after an error message, with a rerun, or with the pipeline in the session
  state and the question form shown.
\<close>

datatype outcome = Uncaught exn | Returned | Rerun | Ready qa_chain vectorstore

text \<open>
  \<open>main\<close> from its first line to the end of the \<open>Initialize system\<close> block. The
  argument is the module's \<open>OPENAI_API_KEY\<close>; \<open>None\<close> and the empty string are
  false in \<open>if OPENAI_API_KEY\<close>.
\<close>

definition main :: "env \<Rightarrow> string option \<Rightarrow> disk \<Rightarrow> outcome \<times> event list \<times> disk" where
  "main env key d =
     (let sidebar = [St_header, St_sidebar_database (''./chroma_db_real'' \<in> set d),
                     St_sidebar_openai (key \<noteq> None \<and> key \<noteq> Some [])]
      in if refresh_pressed env then (Rerun, sidebar, d)
         else (case get_vectorstore env d of
                 (Inl e, seen, d') \<Rightarrow> (Returned, sidebar @ seen @ [St_error_initialization e], d')
               | (Inr None, seen, d') \<Rightarrow> (Returned, sidebar @ seen @ [St_error_knowledge_base], d')
               | (Inr (Some vs), seen, d') \<Rightarrow>
                   (case get_qa_chain env (Some vs) of
                      Inl e \<Rightarrow> (Returned, sidebar @ seen @ [St_error_initialization e], d')
                    | Inr None \<Rightarrow> (Returned, sidebar @ seen @ [St_error_qa_system], d')
                    | Inr (Some q) \<Rightarrow> (Ready q vs, sidebar @ seen, d'))))"

text \<open>
  The process environment. \<open>os.getenv\<close> gives \<open>None\<close> for a variable that is not set;
  \<open>os.environ[name] = value\<close> raises \<open>TypeError\<close> when the value is not a string.
\<close>

type_synonym environ = "string \<rightharpoonup> string"

definition getenv :: "environ \<Rightarrow> string \<Rightarrow> string option" where
  "getenv environ name = environ name"

definition environ_setitem :: "environ \<Rightarrow> string \<Rightarrow> string option \<Rightarrow> exn + environ" where
  "environ_setitem environ name v =
     (case v of None \<Rightarrow> Inl TypeError | Some s \<Rightarrow> Inr (environ(name \<mapsto> s)))"

text \<open>The script \<open>app.py\<close>: its two module-level statements on the key, then \<open>main()\<close>.\<close>

definition app_py :: "environ \<Rightarrow> env \<Rightarrow> disk \<Rightarrow> outcome \<times> event list \<times> disk" where
  "app_py environ env d =
     (let OPENAI_API_KEY = getenv environ ''OPENAI_API_KEY''
      in case environ_setitem environ ''OPENAI_API_KEY'' OPENAI_API_KEY of
           Inl e \<Rightarrow> (Uncaught e, [], d)
         | Inr environ' \<Rightarrow> main env OPENAI_API_KEY d)"

subsection \<open>The launcher\<close>

text \<open>
  \<open>run.py\<close>, after \<open>load_dotenv\<close>: it checks the required variables, and only then
  starts \<open>streamlit run app.py\<close>. It returns what it printed and the exit status.
\<close>

datatype subprocess_result = Completed | KeyboardInterrupt | CalledProcessError

datatype printed = Print_missing "string list" | Print_starting | Print_goodbye | Print_error

definition required_vars :: "string list" where
  "required_vars = [''FIRECRAWL_API_KEY'', ''OPENAI_API_KEY'']"

definition missing_vars :: "environ \<Rightarrow> string list" where
  "missing_vars environ =
     filter (\<lambda>var. getenv environ var = None \<or> getenv environ var = Some []) required_vars"

definition run_py :: "environ \<Rightarrow> subprocess_result \<Rightarrow> printed list \<times> nat" where
  "run_py environ sub =
     (if missing_vars environ \<noteq> [] then ([Print_missing (missing_vars environ)], 1)
      else (case sub of
              Completed \<Rightarrow> ([Print_starting], 0)
            | KeyboardInterrupt \<Rightarrow> ([Print_starting, Print_goodbye], 0)
            | CalledProcessError \<Rightarrow> ([Print_starting, Print_error], 1)))"


section \<open>Definitions for the statements\<close>

subsection \<open>What the specification names\<close>

text \<open>
  The character class as the specification writes it, \<open>[A-Za-z0-9\s.,!?;:()\-]\<close>: the
  ASCII letters and digits, whitespace and the nine punctuation marks.
\<close>

definition spec_charset :: "nat \<Rightarrow> bool" where
  "spec_charset c \<longleftrightarrow>
     (65 \<le> c \<and> c \<le> 90) \<or> (97 \<le> c \<and> c \<le> 122) \<or> (48 \<le> c \<and> c \<le> 57) \<or>
     is_space c \<or> c \<in> set (ords ''.,!?;:()-'')"

text \<open>A status that is not 2xx, which the specification calls a failed fetch.\<close>

definition non_2xx :: "nat \<Rightarrow> bool" where
  "non_2xx st \<longleftrightarrow> \<not> (200 \<le> st \<and> st < 300)"

text \<open>
  A URL fails in the program when \<open>requests.get\<close> raises (network error, timeout), when
  the status is 4xx or 5xx, when the parser raises, or when the cleaned text is empty.
\<close>

definition url_skipped :: "env \<Rightarrow> string \<Rightarrow> bool" where
  "url_skipped env u \<longleftrightarrow>
     (case requests_get env u headers 10 of
        Inl e \<Rightarrow> True
      | Inr resp \<Rightarrow>
          (400 \<le> status_code resp \<and> status_code resp < 600) \<or>
          (case html_parser env (body resp) of
             Inl e \<Rightarrow> True
           | Inr parsed \<Rightarrow>
               clean_text (unicode_alnum env)
                 (get_text (decompose_all [ords ''script'', ords ''style''] parsed)) = []))"

subsection \<open>Projections of what was shown and sent\<close>

definition progress_values :: "event list \<Rightarrow> rat list" where
  "progress_values seen = concat (map (\<lambda>e. case e of St_progress r \<Rightarrow> [r] | _ \<Rightarrow> []) seen)"

definition http_requests :: "event list \<Rightarrow> event list" where
  "http_requests seen = filter (\<lambda>e. case e of Http_get u h t \<Rightarrow> True | _ \<Rightarrow> False) seen"

text \<open>The requests and the progress values together, in the order in which they happen.\<close>

definition fetches_and_progress :: "event list \<Rightarrow> event list" where
  "fetches_and_progress seen =
     filter (\<lambda>e. case e of Http_get u h t \<Rightarrow> True | St_progress r \<Rightarrow> True | _ \<Rightarrow> False) seen"

subsection \<open>Normal form of whitespace\<close>

text \<open>
  Every whitespace character is one space and is followed, if by anything, by a character
  that is not whitespace.
\<close>

fun single_spaced :: "pystr \<Rightarrow> bool" where
  "single_spaced [] = True"
| "single_spaced [c] = (is_space c \<longrightarrow> c = 32)"
| "single_spaced (c # d # cs) = ((is_space c \<longrightarrow> c = 32 \<and> \<not> is_space d) \<and> single_spaced (d # cs))"

subsection \<open>Concrete worlds\<close>

text \<open>No network, no provider.\<close>

definition offline :: env where
  "offline = \<lparr>unicode_alnum = latin1_alnum,
              requests_get = (\<lambda>u h t. Inl ConnectionError),
              html_parser = (\<lambda>b. Inl ParserError),
              chroma_from_documents = (\<lambda>docs c p d. (Inl ProviderError, d)),
              retrieval_qa = (\<lambda>v. Inl ProviderError),
              refresh_pressed = False\<rparr>"

text \<open>Every URL answers with the given status and a page that parses to the given soup.\<close>

definition serving :: "nat \<Rightarrow> node list \<Rightarrow> env" where
  "serving st soup = offline\<lparr>requests_get := (\<lambda>u h t. Inr \<lparr>status_code = st, body = []\<rparr>),
                             html_parser := (\<lambda>b. Inr soup)\<rparr>"

text \<open>Every URL answers 200 with bytes that the parser rejects.\<close>

definition unparsable :: env where
  "unparsable = offline\<lparr>requests_get := (\<lambda>u h t. Inr \<lparr>status_code = 200, body = [60, 33]\<rparr>)\<rparr>"

text \<open>As \<open>serving 200\<close>, with a provider that builds the store and writes its directory.\<close>

definition indexing :: "node list \<Rightarrow> env" where
  "indexing soup = (serving 200 soup)
     \<lparr>chroma_from_documents :=
        (\<lambda>docs c p d. (Inr \<lparr>collection_name = c, persist_directory = p, documents = docs\<rparr>, p # d)),
      retrieval_qa := (\<lambda>v. Inr (Qa_chain v))\<rparr>"

definition sample_page :: "node list" where
  "sample_page =
     [Tag (ords ''html'')
        [Tag (ords ''head'')
           [Tag (ords ''title'') [NavigableString (ords ''Home'')],
            Tag (ords ''style'') [NavigableString (ords ''p {}'')]],
         Tag (ords ''body'') [NavigableString (ords ''a_b @ c'')]]]"

text \<open>
  A world restricted to the request of a browser: it answers as the given world does when
  the GET is for one of the given URLs, carries exactly the \<open>User-Agent\<close> header
  \<open>Mozilla/5.0 (Windows NT 10.0; Win64; x64) AppleWebKit/537.36\<close> and has a timeout of 10
  seconds; any other request finds no connection.
\<close>

definition browser_get_only :: "string list \<Rightarrow> env \<Rightarrow> env" where
  "browser_get_only urls env =
     env\<lparr>requests_get :=
           (\<lambda>u h t.
              if u \<in> set urls \<and>
                 h = [(''User-Agent'', ''Mozilla/5.0 (Windows NT 10.0; Win64; x64) AppleWebKit/537.36'')] \<and>
                 t = 10
              then requests_get env u h t
              else Inl ConnectionError)\<rparr>"

section \<open>Lemmas\<close>

lemmas class_defs = kept_def is_word_def ascii_alnum_def is_space_def basic_punct_def latin1_alnum_def ords_def
lemmas clean_defs = clean_text_def strip_def lstrip_def rstrip_def sub_special_def
lemmas scrape_defs = scrape_url_def scrape_try_def fetch_def http_get_def raise_for_status_def headers_def

subsection \<open>Characters of the cleaned text\<close>

lemma set_sub_ws_runs: "c \<in> set (sub_ws_runs t) \<Longrightarrow> c = 32 \<or> (c \<in> set t \<and> \<not> is_space c)"
  by (induction t rule: sub_ws_runs.induct) (auto split: if_splits dest: set_dropWhileD)

lemma set_rstrip: "set (rstrip t) \<subseteq> set t"
  unfolding rstrip_def using set_dropWhileD[of _ is_space "rev t"] by auto

lemma set_strip: "set (strip t) \<subseteq> set t"
  unfolding strip_def lstrip_def using set_rstrip[of "dropWhile is_space t"] set_dropWhileD[of _ is_space t] by blast

lemma clean_text_kept: "c \<in> set (clean_text alnum t) \<Longrightarrow> kept alnum c"
  unfolding clean_text_def sub_special_def using set_strip by fastforce

subsection \<open>Fixed points of clean_text\<close>

lemma sub_ws_runs_hd: "t \<noteq> [] \<Longrightarrow> \<not> is_space (hd t) \<Longrightarrow> sub_ws_runs t \<noteq> [] \<and> hd (sub_ws_runs t) = hd t"
  by (cases t) auto

lemma single_spaced_Cons: "single_spaced (c # cs) \<longleftrightarrow> (is_space c \<longrightarrow> c = 32 \<and> (cs \<noteq> [] \<longrightarrow> \<not> is_space (hd cs))) \<and> single_spaced cs"
  by (cases cs) auto

lemma dropWhile_hd: "dropWhile P xs \<noteq> [] \<Longrightarrow> \<not> P (hd (dropWhile P xs))"
  by (simp add: hd_dropWhile)

lemma single_spaced_sub_ws_runs: "single_spaced (sub_ws_runs t)"
proof (induction t rule: sub_ws_runs.induct)
  case 1
  show ?case by simp
next
  case (2 c cs)
  show ?case
  proof (cases "is_space c")
    case True
    let ?r = "dropWhile is_space cs"
    have ih: "single_spaced (sub_ws_runs ?r)" using 2(1) True by simp
    have "sub_ws_runs ?r \<noteq> [] \<Longrightarrow> \<not> is_space (hd (sub_ws_runs ?r))"
    proof -
      assume ne: "sub_ws_runs ?r \<noteq> []"
      have rne: "?r \<noteq> []"
      proof
        assume "?r = []"
        then have "sub_ws_runs ?r = []" by (simp only: sub_ws_runs.simps)
        with ne show False by contradiction
      qed
      then have "\<not> is_space (hd ?r)" by (rule dropWhile_hd)
      with rne show ?thesis using sub_ws_runs_hd by simp
    qed
    with ih True show ?thesis by (simp add: single_spaced_Cons)
  next
    case False
    with 2(2) show ?thesis by (simp add: single_spaced_Cons)
  qed
qed

lemma sub_ws_runs_id: "single_spaced t \<Longrightarrow> sub_ws_runs t = t"
proof (induction t rule: sub_ws_runs.induct)
  case 1
  show ?case by simp
next
  case (2 c cs)
  from 2(3) have ss: "single_spaced cs" and hd: "is_space c \<Longrightarrow> c = 32 \<and> (cs \<noteq> [] \<longrightarrow> \<not> is_space (hd cs))"
    by (simp_all add: single_spaced_Cons)
  show ?case
  proof (cases "is_space c")
    case True
    with hd have c: "c = 32" and nsp: "cs \<noteq> [] \<longrightarrow> \<not> is_space (hd cs)" by simp_all
    from nsp have dw: "dropWhile is_space cs = cs" by (cases cs) auto
    with 2(1) True ss c show ?thesis by simp
  next
    case False
    with 2(2) ss show ?thesis by simp
  qed
qed

lemma single_spaced_drop: "single_spaced t \<Longrightarrow> single_spaced (drop n t)"
proof (induction n arbitrary: t)
  case 0
  then show ?case by simp
next
  case (Suc n)
  then show ?case by (cases t) (auto simp: single_spaced_Cons)
qed

lemma single_spaced_take: "single_spaced t \<Longrightarrow> single_spaced (take n t)"
proof (induction t arbitrary: n)
  case Nil
  then show ?case by simp
next
  case (Cons c cs)
  show ?case
  proof (cases n)
    case 0
    then show ?thesis by simp
  next
    case (Suc m)
    from Cons.prems have ss: "single_spaced cs" and hd: "is_space c \<longrightarrow> c = 32 \<and> (cs \<noteq> [] \<longrightarrow> \<not> is_space (hd cs))"
      by (simp_all add: single_spaced_Cons)
    have "take m cs \<noteq> [] \<Longrightarrow> hd (take m cs) = hd cs" by (cases cs; cases m) auto
    moreover have "take m cs \<noteq> [] \<Longrightarrow> cs \<noteq> []" by auto
    ultimately show ?thesis using Suc Cons.IH[OF ss, of m] hd by (auto simp: single_spaced_Cons)
  qed
qed

lemma lstrip_drop: "lstrip t = drop (length (takeWhile is_space t)) t"
  by (simp add: lstrip_def dropWhile_eq_drop)

lemma rstrip_take: "rstrip t = take (length t - length (takeWhile is_space (rev t))) t"
  by (simp add: rstrip_def dropWhile_eq_drop rev_drop)

lemma single_spaced_strip: "single_spaced t \<Longrightarrow> single_spaced (strip t)"
  by (simp add: strip_def rstrip_take lstrip_drop single_spaced_take single_spaced_drop)

lemma rstrip_rstrip: "rstrip (rstrip t) = rstrip t"
  by (simp add: rstrip_def)

lemma lstrip_rstrip: "lstrip (rstrip (lstrip t)) = rstrip (lstrip t)"
proof (cases "rstrip (lstrip t)")
  case Nil
  then show ?thesis by (simp add: lstrip_def)
next
  case (Cons c cs)
  have "hd (rstrip (lstrip t)) = hd (lstrip t)"
    using Cons unfolding rstrip_take by (metis hd_take list.distinct(1) take_eq_Nil neq0_conv)
  moreover have "lstrip t \<noteq> []" using Cons by (auto simp: rstrip_def)
  ultimately have "\<not> is_space c" using Cons dropWhile_hd[of is_space t] by (simp add: lstrip_def)
  then show ?thesis using Cons by (simp add: lstrip_def)
qed

lemma strip_strip: "strip (strip t) = strip t"
  by (simp add: strip_def lstrip_rstrip rstrip_rstrip)

lemma filter_kept_id: "(\<And>c. c \<in> set t \<Longrightarrow> kept alnum c) \<Longrightarrow> sub_special alnum t = t"
  by (simp add: sub_special_def)

lemma kept_32: "kept alnum 32"
  by (simp add: kept_def is_space_def)

lemma clean_text_fix:
  assumes "\<And>c. c \<in> set t \<Longrightarrow> kept alnum c"
  shows "clean_text alnum (clean_text alnum t) = clean_text alnum t"
proof -
  let ?a = "sub_ws_runs t"
  have ka: "\<And>c. c \<in> set ?a \<Longrightarrow> kept alnum c"
    using set_sub_ws_runs assms kept_32 by blast
  then have fa: "sub_special alnum ?a = ?a" by (rule filter_kept_id)
  then have ct: "clean_text alnum t = strip ?a" by (simp add: clean_text_def)
  have ss: "single_spaced (strip ?a)" by (simp add: single_spaced_strip single_spaced_sub_ws_runs)
  then have "sub_ws_runs (strip ?a) = strip ?a" by (rule sub_ws_runs_id)
  moreover have "sub_special alnum (strip ?a) = strip ?a"
    using ka set_strip by (intro filter_kept_id) blast
  ultimately have "clean_text alnum (strip ?a) = strip (strip ?a)"
    by (simp only: clean_text_def)
  then have "clean_text alnum (strip ?a) = strip ?a"
    by (simp only: strip_strip)
  then show ?thesis by (simp only: ct)
qed

lemma sub_ws_runs_plain: "\<forall>c \<in> set t. \<not> is_space c \<Longrightarrow> sub_ws_runs t = t"
  by (induction t) auto

lemma dropWhile_none: "\<forall>c \<in> set t. \<not> P c \<Longrightarrow> dropWhile P t = t"
  by (cases t) auto

lemma clean_text_plain:
  assumes "\<forall>c \<in> set t. kept alnum c \<and> \<not> is_space c"
  shows "clean_text alnum t = t"
proof -
  from assms have ns: "\<forall>c \<in> set t. \<not> is_space c" and k: "\<forall>c \<in> set t. kept alnum c" by auto
  from ns have "\<forall>c \<in> set (rev t). \<not> is_space c" by simp
  then have "dropWhile is_space (rev t) = rev t" by (rule dropWhile_none)
  moreover from ns have "dropWhile is_space t = t" by (rule dropWhile_none)
  moreover from k have "filter (kept alnum) t = t" by simp
  ultimately show ?thesis
    by (simp add: clean_text_def strip_def lstrip_def rstrip_def sub_special_def sub_ws_runs_plain[OF ns])
qed

subsection \<open>scrape_url\<close>

lemma scrape_url_Some:
  assumes "fst (scrape_url env u) = Some r"
  shows "\<exists>resp parsed. requests_get env u headers 10 = Inr resp \<and>
           \<not> (400 \<le> status_code resp \<and> status_code resp < 600) \<and>
           html_parser env (body resp) = Inr parsed \<and>
           url r = u \<and>
           title r = (case find_tag (ords ''title'') (decompose_all [ords ''script'', ords ''style''] parsed) of
                        Some t \<Rightarrow> get_text [t] | None \<Rightarrow> ords ''No Title'') \<and>
           content r = take 5000 (clean_text (unicode_alnum env)
                          (get_text (decompose_all [ords ''script'', ords ''style''] parsed)))"
  using assms
  by (auto simp: scrape_url_def scrape_try_def fetch_def http_get_def raise_for_status_def Let_def split: sum.splits if_splits)

lemma scrape_url_url: "fst (scrape_url env u) = Some d \<Longrightarrow> url d = u"
  using scrape_url_Some by blast

lemma url_skipped_iff:
  "url_skipped env u \<longleftrightarrow> (case fst (scrape_url env u) of None \<Rightarrow> True | Some d \<Rightarrow> content d = [])"
  by (auto simp: url_skipped_def scrape_url_def scrape_try_def fetch_def http_get_def raise_for_status_def Let_def
           split: sum.splits option.splits if_splits)

lemma scrape_url_events:
  "progress_values (snd (scrape_url env u)) = [] \<and>
   http_requests (snd (scrape_url env u)) = [Http_get u headers 10]"
  by (auto simp: scrape_url_def fetch_def http_get_def progress_values_def http_requests_def split: sum.splits)

lemma scrape_url_fetches:
  "fetches_and_progress (snd (scrape_url env u)) = [Http_get u headers 10]"
  by (auto simp: scrape_url_def fetch_def http_get_def fetches_and_progress_def split: sum.splits)

lemma scrape_url_browser_get_only:
  assumes "u \<in> set urls"
  shows "scrape_url (browser_get_only urls env) u = scrape_url env u"
proof -
  have f: "fetch (browser_get_only urls env) u = fetch env u"
    using assms by (simp add: fetch_def http_get_def headers_def browser_get_only_def)
  have p: "html_parser (browser_get_only urls env) = html_parser env"
    and a: "unicode_alnum (browser_get_only urls env) = unicode_alnum env"
    by (simp_all add: browser_get_only_def)
  have "scrape_try (browser_get_only urls env) u = scrape_try env u"
    by (simp only: scrape_try_def f p a)
  then show ?thesis by (simp only: scrape_url_def f)
qed

lemma find_tag_first:
  "find_tag name ns = (case filter (is_tag name) (descendants ns) of [] \<Rightarrow> None | t # ts \<Rightarrow> Some t)"
  by (induction name ns rule: find_tag.induct) (auto split: list.splits option.splits)

subsection \<open>The loop of load_argyle_data\<close>

lemma progress_values_Nil: "progress_values [] = []"
  by (simp add: progress_values_def)

lemma progress_values_append: "progress_values (a @ b) = progress_values a @ progress_values b"
  by (simp add: progress_values_def)

lemma progress_values_Cons:
  "progress_values (e # es) = (case e of St_progress r \<Rightarrow> r # progress_values es | _ \<Rightarrow> progress_values es)"
  by (simp add: progress_values_def split: event.splits)

lemma http_requests_Nil: "http_requests [] = []"
  by (simp add: http_requests_def)

lemma http_requests_append: "http_requests (a @ b) = http_requests a @ http_requests b"
  by (simp add: http_requests_def)

lemma http_requests_Cons:
  "http_requests (e # es) = (case e of Http_get u h t \<Rightarrow> e # http_requests es | _ \<Rightarrow> http_requests es)"
  by (simp add: http_requests_def split: event.splits)

lemma load_loop_step:
  "load_loop env n ((i, u) # rest) docs =
     (fst (load_loop env n rest
        (case fst (scrape_url env u) of
           Some d \<Rightarrow> if content d \<noteq> []
                     then docs @ [\<lparr>page_content = content d, source = url d, meta_title = title d\<rparr>]
                     else docs
         | None \<Rightarrow> docs)),
      [St_text_scraping u] @ snd (scrape_url env u) @
      [St_progress (of_nat (i + 1) / of_nat n), Sleep (1 / 2)] @
      snd (load_loop env n rest
        (case fst (scrape_url env u) of
           Some d \<Rightarrow> if content d \<noteq> []
                     then docs @ [\<lparr>page_content = content d, source = url d, meta_title = title d\<rparr>]
                     else docs
         | None \<Rightarrow> docs)))"
  by (simp add: Let_def case_prod_unfold)

lemma load_loop_sources:
  "map source (fst (load_loop env n ius docs)) =
     map source docs @ filter (\<lambda>u. \<not> url_skipped env u) (map snd ius)"
proof (induction ius arbitrary: docs)
  case Nil
  show ?case by simp
next
  case (Cons iu ius)
  obtain i u where iu: "iu = (i, u)" by (cases iu)
  show ?case
  proof (cases "fst (scrape_url env u)")
    case None
    then have sk: "url_skipped env u" by (simp add: url_skipped_iff)
    show ?thesis unfolding iu load_loop_step using Cons.IH[of docs] None sk by simp
  next
    case (Some d)
    have ud: "url d = u" using Some by (rule scrape_url_url)
    show ?thesis
    proof (cases "content d = []")
      case True
      then have sk: "url_skipped env u" using Some by (simp add: url_skipped_iff)
      show ?thesis unfolding iu load_loop_step using Cons.IH[of docs] Some True sk by simp
    next
      case False
      then have sk: "\<not> url_skipped env u" using Some by (simp add: url_skipped_iff)
      show ?thesis unfolding iu load_loop_step
        using Cons.IH[of "docs @ [\<lparr>page_content = content d, source = url d, meta_title = title d\<rparr>]"]
          Some False sk ud
        by simp
    qed
  qed
qed

lemma load_loop_progress:
  "progress_values (snd (load_loop env n (enumerate i us) docs)) =
     map (\<lambda>k. of_nat k / of_nat n) [Suc i..<Suc i + length us]"
proof (induction us arbitrary: i docs)
  case Nil
  show ?case by (simp add: progress_values_def)
next
  case (Cons u us)
  have up: "map (\<lambda>k. rat_of_nat k / rat_of_nat n) [Suc i..<Suc i + length (u # us)] =
            (rat_of_nat (Suc i) / rat_of_nat n) #
            map (\<lambda>k. rat_of_nat k / rat_of_nat n) [Suc (Suc i)..<Suc (Suc i) + length us]"
    by (simp add: upt_conv_Cons del: upt_Suc of_nat_Suc)
  have pv: "progress_values (snd (scrape_url env u)) = []" using scrape_url_events by blast
  have "progress_values (snd (load_loop env n (enumerate i (u # us)) docs)) =
          (rat_of_nat (Suc i) / rat_of_nat n) #
          map (\<lambda>k. rat_of_nat k / rat_of_nat n) [Suc (Suc i)..<Suc (Suc i) + length us]"
    unfolding enumerate_simps load_loop_step
    by (simp add: progress_values_append progress_values_Cons pv Cons.IH del: upt_Suc of_nat_Suc)
  then show ?case by (simp only: up)
qed

lemma load_loop_requests:
  "http_requests (snd (load_loop env n ius docs)) = map (\<lambda>u. Http_get u headers 10) (map snd ius)"
proof (induction ius arbitrary: docs)
  case Nil
  show ?case by (simp add: http_requests_def)
next
  case (Cons iu ius)
  obtain i u where iu: "iu = (i, u)" by (cases iu)
  have hr: "http_requests (snd (scrape_url env u)) = [Http_get u headers 10]"
    using scrape_url_events by blast
  show ?case unfolding iu load_loop_step
    by (simp add: http_requests_append http_requests_Cons hr Cons.IH)
qed

lemma fetches_and_progress_Nil: "fetches_and_progress [] = []"
  by (simp add: fetches_and_progress_def)

lemma fetches_and_progress_append:
  "fetches_and_progress (a @ b) = fetches_and_progress a @ fetches_and_progress b"
  by (simp add: fetches_and_progress_def)

lemma fetches_and_progress_Cons:
  "fetches_and_progress (e # es) =
     (case e of Http_get u h t \<Rightarrow> e # fetches_and_progress es
              | St_progress r \<Rightarrow> e # fetches_and_progress es
              | _ \<Rightarrow> fetches_and_progress es)"
  by (simp add: fetches_and_progress_def split: event.splits)

lemma load_loop_order:
  "fetches_and_progress (snd (load_loop env n ius docs)) =
     concat (map (\<lambda>(i, u). [Http_get u headers 10, St_progress (of_nat (i + 1) / of_nat n)]) ius)"
proof (induction ius arbitrary: docs)
  case Nil
  show ?case by (simp add: fetches_and_progress_def)
next
  case (Cons iu ius)
  obtain i u where iu: "iu = (i, u)" by (cases iu)
  show ?case unfolding iu load_loop_step
    by (simp add: fetches_and_progress_append fetches_and_progress_Cons scrape_url_fetches Cons.IH
          del: of_nat_Suc)
qed

lemma load_loop_cong:
  "\<forall>u \<in> snd ` set ius. scrape_url env' u = scrape_url env u \<Longrightarrow>
   load_loop env' n ius docs = load_loop env n ius docs"
proof (induction ius arbitrary: docs)
  case Nil
  show ?case by simp
next
  case (Cons iu ius)
  obtain i u where iu: "iu = (i, u)" by (cases iu)
  from Cons.prems iu have here: "scrape_url env' u = scrape_url env u" by simp
  from Cons.prems have rest: "\<forall>u \<in> snd ` set ius. scrape_url env' u = scrape_url env u" by simp
  show ?case unfolding iu load_loop_step here by (simp only: Cons.IH[OF rest])
qed

lemma load_argyle_data_from_sources:
  "map source (fst (load_argyle_data_from env urls)) = filter (\<lambda>u. \<not> url_skipped env u) urls"
  by (simp add: load_argyle_data_from_def Let_def case_prod_unfold load_loop_sources)

lemma load_argyle_data_from_progress:
  "progress_values (snd (load_argyle_data_from env urls)) =
     0 # map (\<lambda>k. of_nat k / of_nat (length urls)) [1..<Suc (length urls)]"
  by (simp add: load_argyle_data_from_def Let_def case_prod_unfold progress_values_append
        progress_values_Cons progress_values_Nil load_loop_progress del: upt_Suc)

lemma load_argyle_data_from_requests:
  "http_requests (snd (load_argyle_data_from env urls)) = map (\<lambda>u. Http_get u headers 10) urls"
  by (simp add: load_argyle_data_from_def Let_def case_prod_unfold http_requests_append
        http_requests_Cons http_requests_Nil load_loop_requests)

lemma load_argyle_data_from_order:
  "fetches_and_progress (snd (load_argyle_data_from env urls)) =
     St_progress 0 #
     concat (map (\<lambda>(i, u). [Http_get u headers 10,
                               St_progress (of_nat (i + 1) / of_nat (length urls))])
               (enumerate 0 urls))"
  by (simp add: load_argyle_data_from_def Let_def case_prod_unfold fetches_and_progress_append
        fetches_and_progress_Cons fetches_and_progress_Nil load_loop_order del: of_nat_Suc)

lemma load_argyle_data_browser_get_only:
  "load_argyle_data (browser_get_only get_argyle_urls env) = load_argyle_data env"
proof -
  have "\<forall>u \<in> snd ` set (enumerate 0 get_argyle_urls).
          scrape_url (browser_get_only get_argyle_urls env) u = scrape_url env u"
  proof
    fix u
    assume "u \<in> snd ` set (enumerate 0 get_argyle_urls)"
    then have "u \<in> set (map snd (enumerate 0 get_argyle_urls))" by (simp only: set_map)
    then have "u \<in> set get_argyle_urls" by simp
    then show "scrape_url (browser_get_only get_argyle_urls env) u = scrape_url env u"
      by (rule scrape_url_browser_get_only)
  qed
  then have "load_loop (browser_get_only get_argyle_urls env) (length get_argyle_urls)
               (enumerate 0 get_argyle_urls) [] =
             load_loop env (length get_argyle_urls) (enumerate 0 get_argyle_urls) []"
    by (rule load_loop_cong)
  then show ?thesis by (simp only: load_argyle_data_def load_argyle_data_from_def)
qed

lemma offline_skips: "url_skipped offline u"
  by (simp add: url_skipped_def offline_def)

lemma offline_empty: "fst (load_argyle_data offline) = []"
proof -
  have "map source (fst (load_argyle_data_from offline get_argyle_urls)) = []"
    by (simp add: load_argyle_data_from_sources offline_skips)
  then show ?thesis by (simp add: load_argyle_data_def)
qed

lemma serving_all_sources:
  "map source (fst (load_argyle_data (serving 200 sample_page))) = get_argyle_urls"
proof -
  have sk: "\<not> url_skipped (serving 200 sample_page) u" for u
    by (simp add: url_skipped_def serving_def offline_def sample_page_def clean_defs class_defs)
  show ?thesis by (simp add: load_argyle_data_def load_argyle_data_from_sources sk)
qed

lemma fractions_increasing:
  "sorted_wrt (<) (0 # map (\<lambda>k. rat_of_nat k / rat_of_nat n) [1..<Suc n])"
proof (cases "n = 0")
  case True
  then show ?thesis by simp
next
  case False
  then have pos: "0 < rat_of_nat n" by simp
  have "sorted_wrt (\<lambda>a b. rat_of_nat a / rat_of_nat n < rat_of_nat b / rat_of_nat n) [1..<Suc n]"
  proof (rule sorted_wrt_mono_rel[where P = "(<)"])
    show "sorted_wrt (<) [1..<Suc n]" by (simp del: upt_Suc)
  next
    fix a b :: nat
    assume "a < b"
    then show "rat_of_nat a / rat_of_nat n < rat_of_nat b / rat_of_nat n"
      using pos by (simp add: divide_strict_right_mono)
  qed
  then have "sorted_wrt (<) (map (\<lambda>k. rat_of_nat k / rat_of_nat n) [1..<Suc n])"
    by (simp only: sorted_wrt_map)
  moreover have "\<forall>x \<in> set (map (\<lambda>k. rat_of_nat k / rat_of_nat n) [1..<Suc n]). 0 < x"
    using pos by (auto simp del: upt_Suc)
  ultimately show ?thesis by (simp del: upt_Suc)
qed

section \<open>The claims\<close>

subsection \<open>C1: the characters of the content\<close>

text \<open>
  C1 as stated fails: \<open>\w\<close> keeps the underscore (and every letter and digit of Unicode,
  not only of ASCII). A page whose only text is \<open>a_b\<close> gives the content \<open>a_b\<close>, and
  the underscore, code 95, is outside the class of the specification.
\<close>

theorem content_charset_counterexample:
  "fst (scrape_url (serving 200 [NavigableString (ords ''a_b'')]) ''https://www.argyleisd.com/'') =
     Some \<lparr>url = ''https://www.argyleisd.com/'', title = ords ''No Title'', content = [97, 95, 98]\<rparr>
   \<and> \<not> spec_charset 95"
  by (simp add: scrape_defs serving_def offline_def clean_defs class_defs spec_charset_def)

text \<open>
  C1, amended: every character of the output of \<open>clean_text\<close>, and so of the content of
  the page record that \<open>scrape_url\<close> returns, is a word character of \<open>\w\<close> (a Unicode
  letter or digit, or the underscore), whitespace, or one of \<open>. , ! ? ; : ( ) -\<close>.
\<close>

theorem content_charset:
  "(c \<in> set (clean_text alnum t) \<longrightarrow> is_word alnum c \<or> is_space c \<or> basic_punct c) \<and>
   (fst (scrape_url env u) = Some r \<and> c \<in> set (content r) \<longrightarrow>
      is_word (unicode_alnum env) c \<or> is_space c \<or> basic_punct c)"
proof (intro conjI impI)
  assume "c \<in> set (clean_text alnum t)"
  then have "kept alnum c" by (rule clean_text_kept)
  then show "is_word alnum c \<or> is_space c \<or> basic_punct c" by (simp add: kept_def)
next
  assume a: "fst (scrape_url env u) = Some r \<and> c \<in> set (content r)"
  then obtain parsed where
    "content r = take 5000 (clean_text (unicode_alnum env)
                    (get_text (decompose_all [ords ''script'', ords ''style''] parsed)))"
    using scrape_url_Some by blast
  with a have "c \<in> set (clean_text (unicode_alnum env)
                    (get_text (decompose_all [ords ''script'', ords ''style''] parsed)))"
    by (auto dest: in_set_takeD)
  then have "kept (unicode_alnum env) c" by (rule clean_text_kept)
  then show "is_word (unicode_alnum env) c \<or> is_space c \<or> basic_punct c" by (simp add: kept_def)
qed

text \<open>C1, witness: \<open>e\<close> with an acute accent in \<open>clean_text\<close>, the underscore in a page.\<close>

theorem content_charset_witness:
  "233 \<in> set (clean_text latin1_alnum [99, 97, 102, 233]) \<and>
   fst (scrape_url (serving 200 sample_page) ''https://www.argyleisd.com/'') =
     Some \<lparr>url = ''https://www.argyleisd.com/'', title = ords ''Home'', content = ords ''Homea_b  c''\<rparr> \<and>
   95 \<in> set (ords ''Homea_b  c'') \<and>
   (is_word latin1_alnum 233 \<or> is_space 233 \<or> basic_punct 233) \<and>
   (is_word (unicode_alnum (serving 200 sample_page)) 95 \<or> is_space 95 \<or> basic_punct 95)"
proof -
  have m1: "233 \<in> set (clean_text latin1_alnum [99, 97, 102, 233])"
    by (simp add: clean_defs class_defs)
  have s: "fst (scrape_url (serving 200 sample_page) ''https://www.argyleisd.com/'') =
     Some \<lparr>url = ''https://www.argyleisd.com/'', title = ords ''Home'', content = ords ''Homea_b  c''\<rparr>"
    by (simp add: scrape_defs serving_def offline_def sample_page_def clean_defs class_defs)
  have m2: "95 \<in> set (ords ''Homea_b  c'')" by (simp add: ords_def)
  then have m2': "95 \<in> set (content \<lparr>url = ''https://www.argyleisd.com/'', title = ords ''Home'', content = ords ''Homea_b  c''\<rparr>)"
    by simp
  from content_charset[of 233 latin1_alnum "[99, 97, 102, 233]"] m1
  have c1: "is_word latin1_alnum 233 \<or> is_space 233 \<or> basic_punct 233" by blast
  from content_charset[of 95 _ _ "serving 200 sample_page" "''https://www.argyleisd.com/''"
      "\<lparr>url = ''https://www.argyleisd.com/'', title = ords ''Home'', content = ords ''Homea_b  c''\<rparr>"] s m2'
  have c2: "is_word (unicode_alnum (serving 200 sample_page)) 95 \<or> is_space 95 \<or> basic_punct 95" by blast
  from m1 s m2 c1 c2 show ?thesis by blast
qed

subsection \<open>C2: idempotence\<close>

text \<open>
  C2 as stated fails: whitespace is collapsed before the special characters are deleted,
  so deleting the \<open>@\<close> of \<open>a @ b\<close> leaves two spaces, and a second pass collapses them.
\<close>

theorem clean_text_idempotent_counterexample:
  "clean_text latin1_alnum (ords ''a @ b'') = ords ''a  b'' \<and>
   clean_text latin1_alnum (clean_text latin1_alnum (ords ''a @ b'')) = ords ''a b'' \<and>
   clean_text latin1_alnum (clean_text latin1_alnum (ords ''a @ b'')) \<noteq> clean_text latin1_alnum (ords ''a @ b'')"
  by (simp add: clean_defs class_defs)

text \<open>
  C2, amended: \<open>clean_text (clean_text t) = clean_text t\<close> for every \<open>t\<close> in which the
  second substitution deletes nothing (every character is a word character, whitespace or
  listed punctuation); and for every \<open>t\<close> whatever, \<open>clean_text\<close> changes nothing from
  its second application on.
\<close>

theorem clean_text_idempotent:
  "((\<forall>c \<in> set t. is_word alnum c \<or> is_space c \<or> basic_punct c) \<longrightarrow>
      clean_text alnum (clean_text alnum t) = clean_text alnum t) \<and>
   clean_text alnum (clean_text alnum (clean_text alnum t)) = clean_text alnum (clean_text alnum t)"
proof (intro conjI impI)
  assume "\<forall>c \<in> set t. is_word alnum c \<or> is_space c \<or> basic_punct c"
  then have "\<And>c. c \<in> set t \<Longrightarrow> kept alnum c" by (simp add: kept_def)
  then show "clean_text alnum (clean_text alnum t) = clean_text alnum t" by (rule clean_text_fix)
next
  have "\<And>c. c \<in> set (clean_text alnum t) \<Longrightarrow> kept alnum c" by (rule clean_text_kept)
  then show "clean_text alnum (clean_text alnum (clean_text alnum t)) = clean_text alnum (clean_text alnum t)"
    by (rule clean_text_fix)
qed

text \<open>C2, witness: a string of kept characters with whitespace to collapse and to trim.\<close>

theorem clean_text_idempotent_witness:
  "list_all (kept latin1_alnum) (ords '' x  y, (z) '') \<and>
   clean_text latin1_alnum (ords '' x  y, (z) '') = ords ''x y, (z)'' \<and>
   clean_text latin1_alnum (clean_text latin1_alnum (ords '' x  y, (z) '')) =
     clean_text latin1_alnum (ords '' x  y, (z) '')"
proof -
  have l: "list_all (kept latin1_alnum) (ords '' x  y, (z) '')"
    by (simp add: class_defs)
  then have h: "\<forall>c \<in> set (ords '' x  y, (z) ''). is_word latin1_alnum c \<or> is_space c \<or> basic_punct c"
    by (auto simp: list_all_iff kept_def)
  have v: "clean_text latin1_alnum (ords '' x  y, (z) '') = ords ''x y, (z)''"
    by (simp add: clean_defs class_defs)
  from clean_text_idempotent[of "ords '' x  y, (z) ''" latin1_alnum] h
  have "clean_text latin1_alnum (clean_text latin1_alnum (ords '' x  y, (z) '')) =
     clean_text latin1_alnum (ords '' x  y, (z) '')" by blast
  with l v show ?thesis by blast
qed

subsection \<open>C3: the length of the content\<close>

text \<open>
  C3: whenever \<open>scrape_url\<close> returns a page record, its content has at most 5000
  characters.
\<close>

theorem content_length:
  "fst (scrape_url env u) = Some r \<Longrightarrow> length (content r) \<le> 5000"
proof -
  assume "fst (scrape_url env u) = Some r"
  then obtain parsed where
    "content r = take 5000 (clean_text (unicode_alnum env)
                    (get_text (decompose_all [ords ''script'', ords ''style''] parsed)))"
    using scrape_url_Some by blast
  then show ?thesis by simp
qed

text \<open>C3, witness: a page of 6000 letters, cut to 5000.\<close>

theorem content_length_witness:
  "fst (scrape_url (serving 200 [NavigableString (replicate 6000 97)]) ''https://www.argyleisd.com/'') =
     Some \<lparr>url = ''https://www.argyleisd.com/'', title = ords ''No Title'', content = replicate 5000 97\<rparr> \<and>
   length (content \<lparr>url = ''https://www.argyleisd.com/'', title = ords ''No Title'',
                    content = replicate 5000 97\<rparr>) \<le> 5000"
proof -
  have "kept latin1_alnum 97 \<and> \<not> is_space 97" by (simp add: class_defs)
  then have "\<forall>c \<in> set (replicate 6000 97). kept latin1_alnum c \<and> \<not> is_space c" by simp
  then have ct: "clean_text latin1_alnum (replicate 6000 97) = replicate 6000 97"
    by (rule clean_text_plain)
  have s: "fst (scrape_url (serving 200 [NavigableString (replicate 6000 97)]) ''https://www.argyleisd.com/'') =
     Some \<lparr>url = ''https://www.argyleisd.com/'', title = ords ''No Title'', content = replicate 5000 97\<rparr>"
    by (simp add: scrape_defs serving_def offline_def ct)
  from content_length[OF s] s show ?thesis by blast
qed

subsection \<open>C4: the empty corpus\<close>

text \<open>
  C4: when \<open>load_argyle_data\<close> returns no document, \<open>get_vectorstore\<close> shows the
  error "No documents loaded" and returns \<open>None\<close> without raising and without calling the
  provider, so the disk is as it was; \<open>main\<close> then shows that the knowledge base failed
  to initialize and returns, the disk still as it was. The signal of the empty corpus is
  the \<open>None\<close> and the message; the program has no exception class for it.
\<close>

theorem empty_corpus_no_index:
  "fst (load_argyle_data env) = [] \<Longrightarrow>
     get_vectorstore env d =
       (Inr None, [St_info_creating] @ snd (load_argyle_data env) @ [St_error_no_documents], d) \<and>
     (\<not> refresh_pressed env \<longrightarrow>
        fst (main env key d) = Returned \<and>
        last (fst (snd (main env key d))) = St_error_knowledge_base \<and>
        snd (snd (main env key d)) = d)"
  by (simp add: get_vectorstore_def main_def case_prod_unfold Let_def)

text \<open>C4, witness: without network the corpus is empty and a file on disk stays alone.\<close>

theorem empty_corpus_no_index_witness:
  "fst (load_argyle_data offline) = [] \<and> \<not> refresh_pressed offline \<and>
   fst (get_vectorstore offline [''./notes.txt'']) = Inr None \<and>
   snd (snd (get_vectorstore offline [''./notes.txt''])) = [''./notes.txt''] \<and>
   fst (main offline (Some ''sk-test'') [''./notes.txt'']) = Returned \<and>
   snd (snd (main offline (Some ''sk-test'') [''./notes.txt''])) = [''./notes.txt'']"
proof -
  have r: "\<not> refresh_pressed offline" by (simp add: offline_def)
  from empty_corpus_no_index[OF offline_empty, of "[''./notes.txt'']" "Some ''sk-test''"] r
  show ?thesis using offline_empty by simp
qed

text \<open>With documents the provider is called and the directory of the index appears.\<close>

lemma index_written_example:
  "main (indexing sample_page) (Some ''sk-test'') [] =
     (Ready (Qa_chain \<lparr>collection_name = ''argyleisd_real'', persist_directory = ''./chroma_db_real'',
                        documents = fst (load_argyle_data (indexing sample_page))\<rparr>)
            \<lparr>collection_name = ''argyleisd_real'', persist_directory = ''./chroma_db_real'',
              documents = fst (load_argyle_data (indexing sample_page))\<rparr>,
      [St_header, St_sidebar_database False, St_sidebar_openai True, St_info_creating] @
        snd (load_argyle_data (indexing sample_page)) @ [St_success_created],
      [''./chroma_db_real''])"
proof -
  have sk: "\<not> url_skipped (indexing sample_page) u" for u
    by (simp add: url_skipped_def indexing_def serving_def offline_def sample_page_def clean_defs class_defs)
  have "map source (fst (load_argyle_data (indexing sample_page))) = get_argyle_urls"
    by (simp add: load_argyle_data_def load_argyle_data_from_sources sk)
  then have ne: "fst (load_argyle_data (indexing sample_page)) \<noteq> []"
    by (auto simp: get_argyle_urls_def)
  have r: "\<not> refresh_pressed (indexing sample_page)"
    and c: "chroma_from_documents (indexing sample_page) =
       (\<lambda>docs c p d. (Inr \<lparr>collection_name = c, persist_directory = p, documents = docs\<rparr>, p # d))"
    and q: "retrieval_qa (indexing sample_page) = (\<lambda>v. Inr (Qa_chain v))"
    by (simp_all add: indexing_def serving_def offline_def)
  show ?thesis
    using ne by (simp add: main_def get_vectorstore_def get_qa_chain_def case_prod_unfold Let_def r c q)
qed

subsection \<open>C5: failures of single URLs\<close>

text \<open>
  C5 as stated fails on "non-2xx": \<open>raise_for_status\<close> raises on 4xx and 5xx only. A
  URL answered with status 300 and a page is not skipped; its document is in the corpus.
\<close>

theorem per_url_failure_counterexample:
  "non_2xx 300 \<and>
   requests_get (serving 300 sample_page) ''https://www.argyleisd.com/'' headers 10 =
     Inr \<lparr>status_code = 300, body = []\<rparr> \<and>
   map source (fst (load_argyle_data_from (serving 300 sample_page) [''https://www.argyleisd.com/''])) =
     [''https://www.argyleisd.com/'']"
  by (simp add: non_2xx_def load_argyle_data_from_def scrape_defs serving_def offline_def
        sample_page_def clean_defs class_defs)

text \<open>
  C5, amended: for every list of URLs, \<open>load_argyle_data\<close> returns (it raises nothing)
  the documents of exactly the URLs that did not fail, in order, where a URL fails on a
  network error or timeout, a 4xx or 5xx status such as 404, a parser error, or empty
  cleaned text; the URLs after a failed one are still processed; when every URL fails the
  list of documents is empty.
\<close>

theorem per_url_failure_skipped:
  "map source (fst (load_argyle_data_from env urls)) = filter (\<lambda>u. \<not> url_skipped env u) urls \<and>
   ((\<forall>u \<in> set urls. url_skipped env u) \<longrightarrow> fst (load_argyle_data_from env urls) = [])"
proof (intro conjI impI)
  show s: "map source (fst (load_argyle_data_from env urls)) = filter (\<lambda>u. \<not> url_skipped env u) urls"
    by (rule load_argyle_data_from_sources)
  assume "\<forall>u \<in> set urls. url_skipped env u"
  then have "filter (\<lambda>u. \<not> url_skipped env u) urls = []" by simp
  with s show "fst (load_argyle_data_from env urls) = []" by simp
qed

text \<open>C5, witness: without network every one of the fourteen URLs fails.\<close>

theorem per_url_failure_skipped_witness:
  "list_all (url_skipped offline) get_argyle_urls \<and>
   map source (fst (load_argyle_data_from offline get_argyle_urls)) =
     filter (\<lambda>u. \<not> url_skipped offline u) get_argyle_urls \<and>
   fst (load_argyle_data_from offline get_argyle_urls) = []"
proof -
  have h: "\<forall>u \<in> set get_argyle_urls. url_skipped offline u" by (simp add: offline_skips)
  then have l: "list_all (url_skipped offline) get_argyle_urls" by (simp only: list_all_iff)
  from per_url_failure_skipped[of offline get_argyle_urls] h
  have "map source (fst (load_argyle_data_from offline get_argyle_urls)) =
          filter (\<lambda>u. \<not> url_skipped offline u) get_argyle_urls \<and>
        fst (load_argyle_data_from offline get_argyle_urls) = []" by blast
  with l show ?thesis by blast
qed

subsection \<open>C6: the missing key\<close>

text \<open>
  C6 does not hold of \<open>app.py\<close>: with \<open>OPENAI_API_KEY\<close> not set, the assignment
  \<open>os.environ["OPENAI_API_KEY"] = OPENAI_API_KEY\<close> raises \<open>TypeError\<close> at module level,
  before \<open>main\<close> and before anything is shown, so the message "OpenAI: Not configured" of
  the sidebar is never reached for a missing variable. The launcher \<open>run.py\<close> does what
  the claim says on the same environment: it prints the missing variables and exits with
  status 1 without starting the application.
\<close>

theorem missing_key_crashes:
  "getenv environ ''OPENAI_API_KEY'' = None \<Longrightarrow>
     app_py environ env d = (Uncaught TypeError, [], d) \<and>
     run_py environ sub = ([Print_missing (missing_vars environ)], 1) \<and>
     ''OPENAI_API_KEY'' \<in> set (missing_vars environ)"
  by (simp add: app_py_def environ_setitem_def run_py_def missing_vars_def required_vars_def)

text \<open>C6, witness: an environment with the other key only.\<close>

theorem missing_key_crashes_witness:
  "getenv [''FIRECRAWL_API_KEY'' \<mapsto> ''fc-test''] ''OPENAI_API_KEY'' = None \<and>
   app_py [''FIRECRAWL_API_KEY'' \<mapsto> ''fc-test''] offline [] = (Uncaught TypeError, [], []) \<and>
   run_py [''FIRECRAWL_API_KEY'' \<mapsto> ''fc-test''] Completed = ([Print_missing [''OPENAI_API_KEY'']], 1)"
proof -
  have h: "getenv [''FIRECRAWL_API_KEY'' \<mapsto> ''fc-test''] ''OPENAI_API_KEY'' = None"
    by (simp add: getenv_def)
  have m: "missing_vars [''FIRECRAWL_API_KEY'' \<mapsto> ''fc-test''] = [''OPENAI_API_KEY'']"
    by (simp add: missing_vars_def required_vars_def getenv_def)
  from missing_key_crashes[OF h, of offline "[]" Completed] h m show ?thesis by simp
qed

subsection \<open>C7: the progress signal\<close>

text \<open>
  C7: for every list of URLs the values given to the progress bar are 0 at its creation
  and then, after the \<open>k\<close>-th URL, \<open>k\<close> divided by the number of URLs; the sequence is
  strictly increasing; and each value follows the request for its URL and precedes the
  request for the next. (The program's quotient is a float; the statement is about the
  exact quotient.)
\<close>

theorem progress_fractions:
  "progress_values (snd (load_argyle_data_from env urls)) =
     0 # map (\<lambda>k. of_nat k / of_nat (length urls)) [1..<Suc (length urls)] \<and>
   sorted_wrt (<) (progress_values (snd (load_argyle_data_from env urls))) \<and>
   fetches_and_progress (snd (load_argyle_data_from env urls)) =
     St_progress 0 #
     concat (map (\<lambda>(i, u). [Http_get u headers 10,
                               St_progress (of_nat (i + 1) / of_nat (length urls))])
               (enumerate 0 urls))"
  by (simp only: load_argyle_data_from_progress fractions_increasing load_argyle_data_from_order
        simp_thms)

text \<open>C7, witness: two URLs give 0, 1/2, 1, each after the request for its URL.\<close>

theorem progress_fractions_witness:
  "progress_values (snd (load_argyle_data_from offline
      [''https://www.argyleisd.com/'', ''https://www.argyleisd.com/about''])) = [0, 1 / 2, 1] \<and>
   sorted_wrt (<) [0, 1 / 2, 1 :: rat] \<and>
   fetches_and_progress (snd (load_argyle_data_from offline
      [''https://www.argyleisd.com/'', ''https://www.argyleisd.com/about''])) =
     [St_progress 0,
      Http_get ''https://www.argyleisd.com/'' headers 10, St_progress (1 / 2),
      Http_get ''https://www.argyleisd.com/about'' headers 10, St_progress 1]"
proof -
  let ?urls = "[''https://www.argyleisd.com/'', ''https://www.argyleisd.com/about'']"
  have v: "0 # map (\<lambda>k. rat_of_nat k / rat_of_nat (length ?urls)) [1..<Suc (length ?urls)] =
        [0, 1 / 2, 1]"
    by (simp add: upt_rec)
  have o: "St_progress 0 #
     concat (map (\<lambda>(i, u). [Http_get u headers 10,
                               St_progress (rat_of_nat (i + 1) / rat_of_nat (length ?urls))])
               (enumerate 0 ?urls)) =
     [St_progress 0,
      Http_get ''https://www.argyleisd.com/'' headers 10, St_progress (1 / 2),
      Http_get ''https://www.argyleisd.com/about'' headers 10, St_progress 1]"
    by simp
  from progress_fractions[of offline ?urls] v o show ?thesis by simp
qed

subsection \<open>C8: the title\<close>

text \<open>
  C8: when \<open>scrape_url\<close> returns a page record, its title is the text of the first
  \<open>title\<close> tag, in document order, of the parsed document (script and style subtrees
  removed, as the program removes them before it looks), and \<open>No Title\<close> when the
  document has no \<open>title\<close> tag.
\<close>

theorem title_field:
  "requests_get env u headers 10 = Inr resp \<Longrightarrow> html_parser env (body resp) = Inr parsed \<Longrightarrow>
   fst (scrape_url env u) = Some r \<Longrightarrow>
   title r = (case filter (is_tag (ords ''title''))
                     (descendants (decompose_all [ords ''script'', ords ''style''] parsed)) of
                [] \<Rightarrow> ords ''No Title''
              | t # ts \<Rightarrow> get_text [t])"
proof -
  assume g: "requests_get env u headers 10 = Inr resp"
    and p: "html_parser env (body resp) = Inr parsed"
    and s: "fst (scrape_url env u) = Some r"
  from scrape_url_Some[OF s] g p
  have "title r = (case find_tag (ords ''title'') (decompose_all [ords ''script'', ords ''style''] parsed) of
                     Some t \<Rightarrow> get_text [t] | None \<Rightarrow> ords ''No Title'')"
    by auto
  then show ?thesis by (simp add: find_tag_first split: list.splits)
qed

text \<open>C8, witness: the sample page has the title \<open>Home\<close>.\<close>

theorem title_field_witness:
  "requests_get (serving 200 sample_page) ''https://www.argyleisd.com/'' headers 10 =
     Inr \<lparr>status_code = 200, body = []\<rparr> \<and>
   html_parser (serving 200 sample_page) (body \<lparr>status_code = 200, body = []\<rparr>) = Inr sample_page \<and>
   fst (scrape_url (serving 200 sample_page) ''https://www.argyleisd.com/'') =
     Some \<lparr>url = ''https://www.argyleisd.com/'', title = ords ''Home'', content = ords ''Homea_b  c''\<rparr> \<and>
   title \<lparr>url = ''https://www.argyleisd.com/'', title = ords ''Home'', content = ords ''Homea_b  c''\<rparr> =
     (case filter (is_tag (ords ''title''))
             (descendants (decompose_all [ords ''script'', ords ''style''] sample_page)) of
        [] \<Rightarrow> ords ''No Title''
      | t # ts \<Rightarrow> get_text [t])"
proof -
  have g: "requests_get (serving 200 sample_page) ''https://www.argyleisd.com/'' headers 10 =
     Inr \<lparr>status_code = 200, body = []\<rparr>"
    by (simp add: serving_def offline_def)
  have p: "html_parser (serving 200 sample_page) (body \<lparr>status_code = 200, body = []\<rparr>) = Inr sample_page"
    by (simp add: serving_def offline_def)
  have s: "fst (scrape_url (serving 200 sample_page) ''https://www.argyleisd.com/'') =
     Some \<lparr>url = ''https://www.argyleisd.com/'', title = ords ''Home'', content = ords ''Homea_b  c''\<rparr>"
    by (simp add: scrape_defs serving_def offline_def sample_page_def clean_defs class_defs)
  from title_field[OF g p s] g p s show ?thesis by blast
qed

text \<open>A page without a \<open>title\<close> tag.\<close>

lemma title_fallback_example:
  "fst (scrape_url (serving 200 [Tag (ords ''p'') [NavigableString (ords ''Hi'')]]) ''https://www.argyleisd.com/'') =
     Some \<lparr>url = ''https://www.argyleisd.com/'', title = ords ''No Title'', content = ords ''Hi''\<rparr>"
  by (simp add: scrape_defs serving_def offline_def clean_defs class_defs)

subsection \<open>C9: the URLs and the request\<close>

text \<open>
  C9: the list of URLs is a constant of fourteen URLs that all begin with
  \<open>https://www.argyleisd.com/\<close>. The call of the fetcher is a GET for the URL with the
  header \<open>User-Agent: Mozilla/5.0 (Windows NT 10.0; Win64; x64) AppleWebKit/537.36\<close> and
  a timeout of 10 seconds: these are the arguments the world is asked with and the request
  that is sent; \<open>scrape_url\<close> and \<open>load_argyle_data\<close> do the same in a world that
  answers no other request; and \<open>load_argyle_data\<close> sends exactly one such GET per URL
  of the list, in order.
\<close>

theorem fixed_urls_and_request:
  "length get_argyle_urls = 14 \<and>
   set (map (take 26) get_argyle_urls) = {''https://www.argyleisd.com/''} \<and>
   fetch env u =
     (requests_get env u
        [(''User-Agent'', ''Mozilla/5.0 (Windows NT 10.0; Win64; x64) AppleWebKit/537.36'')] 10,
      [Http_get u
        [(''User-Agent'', ''Mozilla/5.0 (Windows NT 10.0; Win64; x64) AppleWebKit/537.36'')] 10]) \<and>
   scrape_url (browser_get_only [u] env) u = scrape_url env u \<and>
   load_argyle_data (browser_get_only get_argyle_urls env) = load_argyle_data env \<and>
   http_requests (snd (load_argyle_data env)) =
     map (\<lambda>u. Http_get u
            [(''User-Agent'', ''Mozilla/5.0 (Windows NT 10.0; Win64; x64) AppleWebKit/537.36'')] 10)
       get_argyle_urls"
proof (intro conjI)
  show "length get_argyle_urls = 14" by (simp add: get_argyle_urls_def)
  show "set (map (take 26) get_argyle_urls) = {''https://www.argyleisd.com/''}"
    by (simp add: get_argyle_urls_def)
  show "fetch env u =
     (requests_get env u
        [(''User-Agent'', ''Mozilla/5.0 (Windows NT 10.0; Win64; x64) AppleWebKit/537.36'')] 10,
      [Http_get u
        [(''User-Agent'', ''Mozilla/5.0 (Windows NT 10.0; Win64; x64) AppleWebKit/537.36'')] 10])"
    by (simp add: fetch_def http_get_def headers_def)
  show "scrape_url (browser_get_only [u] env) u = scrape_url env u"
  proof -
    have f: "fetch (browser_get_only [u] env) u = fetch env u"
      by (simp add: fetch_def http_get_def headers_def browser_get_only_def)
    have p: "html_parser (browser_get_only [u] env) = html_parser env"
      and a: "unicode_alnum (browser_get_only [u] env) = unicode_alnum env"
      by (simp_all add: browser_get_only_def)
    have "scrape_try (browser_get_only [u] env) u = scrape_try env u"
      by (simp only: scrape_try_def f p a)
    then show ?thesis by (simp only: scrape_url_def f)
  qed
  show "load_argyle_data (browser_get_only get_argyle_urls env) = load_argyle_data env"
    by (rule load_argyle_data_browser_get_only)
  have "http_requests (snd (load_argyle_data env)) = map (\<lambda>u. Http_get u headers 10) get_argyle_urls"
    by (simp only: load_argyle_data_def load_argyle_data_from_requests)
  then show "http_requests (snd (load_argyle_data env)) =
     map (\<lambda>u. Http_get u
            [(''User-Agent'', ''Mozilla/5.0 (Windows NT 10.0; Win64; x64) AppleWebKit/537.36'')] 10)
       get_argyle_urls"
    by (simp only: headers_def)
qed

text \<open>
  C9, witness: in the world that serves the sample page to the request of a browser only,
  all fourteen URLs give a document.
\<close>

theorem fixed_urls_and_request_witness:
  "map source (fst (load_argyle_data (browser_get_only get_argyle_urls (serving 200 sample_page)))) =
     get_argyle_urls \<and>
   length (http_requests (snd (load_argyle_data (serving 200 sample_page)))) = 14"
proof -
  note t = fixed_urls_and_request[of "serving 200 sample_page" "''https://www.argyleisd.com/''"]
  from t have a: "load_argyle_data (browser_get_only get_argyle_urls (serving 200 sample_page)) =
                  load_argyle_data (serving 200 sample_page)" by blast
  from t have b: "length (http_requests (snd (load_argyle_data (serving 200 sample_page)))) = 14"
    by simp
  from a b serving_all_sources show ?thesis by simp
qed

text \<open>
  A world that serves the sample page to every request but those with the program's header
  and timeout, which time out: the corpus is empty.
\<close>

lemma other_requests_unused:
  "fst (load_argyle_data
     ((serving 200 sample_page)
        \<lparr>requests_get := (\<lambda>u h t. if h = headers \<and> t = 10 then Inl Timeout
                                 else Inr \<lparr>status_code = 200, body = []\<rparr>)\<rparr>)) = []"
proof -
  have "url_skipped ((serving 200 sample_page)
        \<lparr>requests_get := (\<lambda>u h t. if h = headers \<and> t = 10 then Inl Timeout
                                 else Inr \<lparr>status_code = 200, body = []\<rparr>)\<rparr>) u" for u
    by (simp add: url_skipped_def)
  then have "map source (fst (load_argyle_data
     ((serving 200 sample_page)
        \<lparr>requests_get := (\<lambda>u h t. if h = headers \<and> t = 10 then Inl Timeout
                                 else Inr \<lparr>status_code = 200, body = []\<rparr>)\<rparr>))) = []"
    by (simp add: load_argyle_data_def load_argyle_data_from_sources)
  then show ?thesis by simp
qed

subsection \<open>C10: scrape_url raises nothing\<close>

text \<open>
  C10 as stated fails on "non-2xx": a response with status 300 raises nothing, and
  \<open>scrape_url\<close> returns a page record for it, not \<open>None\<close>.
\<close>

theorem scrape_url_total_counterexample:
  "non_2xx 300 \<and>
   requests_get (serving 300 [NavigableString (ords ''Multiple Choices'')])
      ''https://www.argyleisd.com/staff'' headers 10 = Inr \<lparr>status_code = 300, body = []\<rparr> \<and>
   fst (scrape_url (serving 300 [NavigableString (ords ''Multiple Choices'')])
      ''https://www.argyleisd.com/staff'') =
     Some \<lparr>url = ''https://www.argyleisd.com/staff'', title = ords ''No Title'',
           content = ords ''Multiple Choices''\<rparr>"
  by (simp add: non_2xx_def scrape_defs serving_def offline_def clean_defs class_defs)

text \<open>
  C10, amended: \<open>scrape_url\<close> returns a page record for its URL or \<open>None\<close> and raises
  nothing: every exception raised in its \<open>try\<close> block is caught, shown as a warning and
  turned into \<open>None\<close>, in particular a network error or timeout of \<open>requests.get\<close>, a
  4xx or 5xx status, and an error of the parser. A response with any other status, 2xx or
  not, that the parser accepts gives a page record.
\<close>

theorem scrape_url_total:
  "(scrape_try env u = Inl e \<longrightarrow>
      scrape_url env u = (None, [Http_get u headers 10, St_warning_failed u e])) \<and>
   (fst (scrape_url env u) = Some r \<longrightarrow> url r = u \<and> scrape_try env u = Inr r) \<and>
   (requests_get env u headers 10 = Inl e \<longrightarrow> fst (scrape_url env u) = None) \<and>
   (requests_get env u headers 10 = Inr resp \<and> 400 \<le> status_code resp \<and> status_code resp < 600 \<longrightarrow>
      fst (scrape_url env u) = None) \<and>
   (requests_get env u headers 10 = Inr resp \<and> html_parser env (body resp) = Inl e \<longrightarrow>
      fst (scrape_url env u) = None) \<and>
   (requests_get env u headers 10 = Inr resp \<and>
    \<not> (400 \<le> status_code resp \<and> status_code resp < 600) \<and>
    html_parser env (body resp) = Inr parsed \<longrightarrow>
      fst (scrape_url env u) \<noteq> None)"
proof (intro conjI impI)
  assume "scrape_try env u = Inl e"
  then show "scrape_url env u = (None, [Http_get u headers 10, St_warning_failed u e])"
    by (simp add: scrape_url_def fetch_def http_get_def)
next
  assume s: "fst (scrape_url env u) = Some r"
  then show "url r = u" by (rule scrape_url_url)
  from s show "scrape_try env u = Inr r" by (auto simp: scrape_url_def split: sum.splits)
next
  assume "requests_get env u headers 10 = Inl e"
  then show "fst (scrape_url env u) = None" by (simp add: scrape_url_def scrape_try_def fetch_def http_get_def)
next
  assume "requests_get env u headers 10 = Inr resp \<and> 400 \<le> status_code resp \<and> status_code resp < 600"
  then show "fst (scrape_url env u) = None"
    by (simp add: scrape_url_def scrape_try_def fetch_def http_get_def raise_for_status_def)
next
  assume "requests_get env u headers 10 = Inr resp \<and> html_parser env (body resp) = Inl e"
  then show "fst (scrape_url env u) = None"
    by (simp add: scrape_url_def scrape_try_def fetch_def http_get_def raise_for_status_def split: sum.splits)
next
  assume "requests_get env u headers 10 = Inr resp \<and>
    \<not> (400 \<le> status_code resp \<and> status_code resp < 600) \<and>
    html_parser env (body resp) = Inr parsed"
  then show "fst (scrape_url env u) \<noteq> None"
    by (simp add: scrape_url_def scrape_try_def fetch_def http_get_def raise_for_status_def Let_def)
qed

text \<open>
  C10, witness: no network, a good page, a 404, bytes the parser rejects, and a 300.
\<close>

theorem scrape_url_total_witness:
  "scrape_try offline ''https://www.argyleisd.com/'' = Inl ConnectionError \<and>
   requests_get offline ''https://www.argyleisd.com/'' headers 10 = Inl ConnectionError \<and>
   fst (scrape_url offline ''https://www.argyleisd.com/'') = None \<and>
   scrape_url offline ''https://www.argyleisd.com/'' =
     (None, [Http_get ''https://www.argyleisd.com/'' headers 10,
             St_warning_failed ''https://www.argyleisd.com/'' ConnectionError]) \<and>
   fst (scrape_url (serving 200 sample_page) ''https://www.argyleisd.com/'') =
     Some \<lparr>url = ''https://www.argyleisd.com/'', title = ords ''Home'', content = ords ''Homea_b  c''\<rparr> \<and>
   scrape_try (serving 200 sample_page) ''https://www.argyleisd.com/'' =
     Inr \<lparr>url = ''https://www.argyleisd.com/'', title = ords ''Home'', content = ords ''Homea_b  c''\<rparr> \<and>
   requests_get (serving 404 sample_page) ''https://www.argyleisd.com/'' headers 10 =
     Inr \<lparr>status_code = 404, body = []\<rparr> \<and>
   fst (scrape_url (serving 404 sample_page) ''https://www.argyleisd.com/'') = None \<and>
   requests_get unparsable ''https://www.argyleisd.com/'' headers 10 =
     Inr \<lparr>status_code = 200, body = [60, 33]\<rparr> \<and>
   html_parser unparsable [60, 33] = Inl ParserError \<and>
   fst (scrape_url unparsable ''https://www.argyleisd.com/'') = None \<and>
   requests_get (serving 300 sample_page) ''https://www.argyleisd.com/'' headers 10 =
     Inr \<lparr>status_code = 300, body = []\<rparr> \<and>
   html_parser (serving 300 sample_page) [] = Inr sample_page \<and>
   fst (scrape_url (serving 300 sample_page) ''https://www.argyleisd.com/'') \<noteq> None"
proof -
  let ?u = "''https://www.argyleisd.com/''"
  let ?r = "\<lparr>url = ?u, title = ords ''Home'', content = ords ''Homea_b  c''\<rparr>"
  have a: "scrape_try offline ?u = Inl ConnectionError"
    by (simp add: scrape_try_def fetch_def http_get_def offline_def)
  have a': "requests_get offline ?u headers 10 = Inl ConnectionError"
    by (simp add: offline_def)
  have b: "fst (scrape_url (serving 200 sample_page) ?u) = Some ?r"
    by (simp add: scrape_defs serving_def offline_def sample_page_def clean_defs class_defs)
  have c: "requests_get (serving 404 sample_page) ?u headers 10 = Inr \<lparr>status_code = 404, body = []\<rparr>"
    by (simp add: serving_def offline_def)
  have c': "400 \<le> status_code \<lparr>status_code = 404, body = []\<rparr> \<and> status_code \<lparr>status_code = 404, body = []\<rparr> < 600"
    by simp
  have d: "requests_get unparsable ?u headers 10 = Inr \<lparr>status_code = 200, body = [60, 33]\<rparr>"
    by (simp add: unparsable_def offline_def)
  have d': "html_parser unparsable (body \<lparr>status_code = 200, body = [60, 33]\<rparr>) = Inl ParserError"
    by (simp add: unparsable_def offline_def)
  have g: "requests_get (serving 300 sample_page) ?u headers 10 = Inr \<lparr>status_code = 300, body = []\<rparr>"
    by (simp add: serving_def offline_def)
  have g': "\<not> (400 \<le> status_code \<lparr>status_code = 300, body = []\<rparr> \<and>
               status_code \<lparr>status_code = 300, body = []\<rparr> < 600)"
    by simp
  have g'': "html_parser (serving 300 sample_page) (body \<lparr>status_code = 300, body = []\<rparr>) = Inr sample_page"
    by (simp add: serving_def offline_def)
  note t5 = scrape_url_total[of "serving 300 sample_page" ?u ConnectionError ?r
      "\<lparr>status_code = 300, body = []\<rparr>" sample_page]
  from t5 g g' g'' have r5: "fst (scrape_url (serving 300 sample_page) ?u) \<noteq> None" by blast
  from g'' have g3: "html_parser (serving 300 sample_page) [] = Inr sample_page" by simp
  note t1 = scrape_url_total[of offline ?u ConnectionError ?r "\<lparr>status_code = 404, body = []\<rparr>"]
  note t2 = scrape_url_total[of "serving 200 sample_page" ?u ConnectionError ?r "\<lparr>status_code = 404, body = []\<rparr>"]
  note t3 = scrape_url_total[of "serving 404 sample_page" ?u ConnectionError ?r "\<lparr>status_code = 404, body = []\<rparr>"]
  note t4 = scrape_url_total[of unparsable ?u ParserError ?r "\<lparr>status_code = 200, body = [60, 33]\<rparr>"]
  from t1 a have r1: "scrape_url offline ?u = (None, [Http_get ?u headers 10, St_warning_failed ?u ConnectionError])"
    by blast
  from t1 a' have r0: "fst (scrape_url offline ?u) = None" by blast
  from t2 b have r2: "scrape_try (serving 200 sample_page) ?u = Inr ?r" by blast
  from t3 c c' have r3: "fst (scrape_url (serving 404 sample_page) ?u) = None" by blast
  from t4 d d' have r4: "fst (scrape_url unparsable ?u) = None" by blast
  from d' have d'': "html_parser unparsable [60, 33] = Inl ParserError" by simp
  from a a' r0 r1 b r2 c r3 d d'' r4 g g3 r5 show ?thesis by blast
qed

end
